theory Spec2Isabelle
  imports Complex_Main
begin

section \<open>The relational store\<close>

text \<open>
  The tables are the ones created by \<^verbatim>\<open>initializeDatabase\<close> in the database
  configuration module.  A table is the list of its rows.  Column names carry the
  table's initial (\<open>c_id\<close> is \<^verbatim>\<open>comments.id\<close>), since record fields share one
  name space.  Integers are unbounded: the handlers compute with numbers far below
  \<open>2^53\<close>, where JavaScript's arithmetic on integers is exact, and the reaction of the
  store to a counter leaving the range of \<^verbatim>\<open>INT\<close> depends on the server's SQL mode,
  which is not part of the program.  The column \<^verbatim>\<open>updated_at\<close> is left out: no
  handler reads or compares it.
\<close>

datatype role = RoleUser | RoleAdmin

datatype post_status = Draft | Published

record user_row =
  u_id :: int
  u_username :: string
  u_email :: string
  u_password :: string
  u_full_name :: "string option"
  u_avatar :: "string option"
  u_role :: role
  u_bio :: "string option"
  u_created_at :: int

record post_row =
  p_id :: int
  p_title :: string
  p_content :: string
  p_excerpt :: "string option"
  p_featured_image :: "string option"
  p_author_id :: int
  p_status :: post_status
  p_views :: int
  p_likes :: int
  p_created_at :: int

record comment_row =
  c_id :: int
  c_content :: string
  c_post_id :: int
  c_user_id :: int
  c_parent_id :: "int option"
  c_created_at :: int

record like_row =
  l_id :: int
  l_user_id :: int
  l_post_id :: int
  l_created_at :: int

text \<open>The four tables and their \<^verbatim>\<open>AUTO_INCREMENT\<close> counters.\<close>

record db =
  users :: "user_row list"
  posts :: "post_row list"
  comments :: "comment_row list"
  likes :: "like_row list"
  next_user_id :: int
  next_post_id :: int
  next_comment_id :: int
  next_like_id :: int

datatype store_error = ForeignKeyViolation | DuplicateEntry | ParseError

subsection \<open>Row predicates\<close>

definition has_user :: "db \<Rightarrow> int \<Rightarrow> bool" where
  "has_user d i = list_ex (\<lambda>u. u_id u = i) (users d)"

definition has_post :: "db \<Rightarrow> int \<Rightarrow> bool" where
  "has_post d i = list_ex (\<lambda>p. p_id p = i) (posts d)"

definition has_comment :: "db \<Rightarrow> int \<Rightarrow> bool" where
  "has_comment d i = list_ex (\<lambda>c. c_id c = i) (comments d)"

definition has_like :: "db \<Rightarrow> int \<Rightarrow> int \<Rightarrow> bool" where
  "has_like d uid pid = list_ex (\<lambda>l. l_user_id l = uid \<and> l_post_id l = pid) (likes d)"

subsection \<open>Deletes and the foreign keys \<^verbatim>\<open>ON DELETE CASCADE\<close>\<close>

text \<open>
  \<^verbatim>\<open>FOREIGN KEY (parent_id) REFERENCES comments(id) ON DELETE CASCADE\<close>: when the
  comments whose ids are \<open>dead\<close> go, every comment whose \<^verbatim>\<open>parent_id\<close> is one of
  them goes too, and so on from the comments removed in that round.  This is the
  referential action as SQL defines it; a bound that an engine puts on the depth of a
  cascade is not part of it.
\<close>

definition refers_to :: "int list \<Rightarrow> comment_row \<Rightarrow> bool" where
  "refers_to dead c = (case c_parent_id c of None \<Rightarrow> False | Some q \<Rightarrow> q \<in> set dead)"

function cascade_replies :: "int list \<Rightarrow> comment_row list \<Rightarrow> comment_row list" where
  "cascade_replies dead cs =
     (if list_ex (refers_to dead) cs
      then cascade_replies (map c_id (filter (refers_to dead) cs))
             (filter (\<lambda>c. \<not> refers_to dead c) cs)
      else cs)"
  by pat_completeness auto
termination
proof (relation "measure (\<lambda>(dead, cs). length cs)")
  show "wf (measure (\<lambda>(dead, cs). length cs))" by simp
next
  fix dead :: "int list" and cs :: "comment_row list"
  assume "list_ex (refers_to dead) cs"
  then obtain c where "c \<in> set cs" "refers_to dead c"
    by (auto simp: list_ex_iff)
  then have "length (filter (\<lambda>c. \<not> refers_to dead c) cs) < length cs"
    by (intro length_filter_less) auto
  then show "((map c_id (filter (refers_to dead) cs), filter (\<lambda>c. \<not> refers_to dead c) cs),
              (dead, cs)) \<in> measure (\<lambda>(dead, cs). length cs)"
    by simp
qed

declare cascade_replies.simps [simp del]

text \<open>\<^verbatim>\<open>DELETE FROM comments WHERE w\<close> on the comments table alone.\<close>

definition delete_comment_rows :: "(comment_row \<Rightarrow> bool) \<Rightarrow> comment_row list \<Rightarrow> comment_row list" where
  "delete_comment_rows w cs =
     cascade_replies (map c_id (filter w cs)) (filter (\<lambda>c. \<not> w c) cs)"

definition delete_comments_where :: "(comment_row \<Rightarrow> bool) \<Rightarrow> db \<Rightarrow> db" where
  "delete_comments_where w d = d\<lparr>comments := delete_comment_rows w (comments d)\<rparr>"

text \<open>
  \<^verbatim>\<open>DELETE FROM posts WHERE w\<close>: the comments and the likes of a removed post go
  with it (\<^verbatim>\<open>FOREIGN KEY (post_id) REFERENCES posts(id) ON DELETE CASCADE\<close> in both
  tables), and the replies of those comments by the key on \<^verbatim>\<open>parent_id\<close>.
\<close>

definition delete_posts_where :: "(post_row \<Rightarrow> bool) \<Rightarrow> db \<Rightarrow> db" where
  "delete_posts_where w d =
     (let gone = map p_id (filter w (posts d)) in
      d\<lparr>posts := filter (\<lambda>p. \<not> w p) (posts d),
        comments := delete_comment_rows (\<lambda>c. c_post_id c \<in> set gone) (comments d),
        likes := filter (\<lambda>l. l_post_id l \<notin> set gone) (likes d)\<rparr>)"

text \<open>
  \<^verbatim>\<open>DELETE FROM users WHERE w\<close>: the user's posts (key on \<^verbatim>\<open>author_id\<close>), comments and
  likes (keys on \<^verbatim>\<open>user_id\<close>) go, and with the posts their comments and likes.
\<close>

definition delete_users_where :: "(user_row \<Rightarrow> bool) \<Rightarrow> db \<Rightarrow> db" where
  "delete_users_where w d =
     (let gone_users = map u_id (filter w (users d));
          gone_posts = map p_id (filter (\<lambda>p. p_author_id p \<in> set gone_users) (posts d)) in
      d\<lparr>users := filter (\<lambda>u. \<not> w u) (users d),
        posts := filter (\<lambda>p. p_author_id p \<notin> set gone_users) (posts d),
        comments := delete_comment_rows
                      (\<lambda>c. c_user_id c \<in> set gone_users \<or> c_post_id c \<in> set gone_posts)
                      (comments d),
        likes := filter (\<lambda>l. l_user_id l \<notin> set gone_users \<and> l_post_id l \<notin> set gone_posts)
                   (likes d)\<rparr>)"

subsection \<open>Inserts\<close>

text \<open>
  \<^verbatim>\<open>INSERT INTO comments (content, post_id, user_id, parent_id) VALUES (?, ?, ?, ?)\<close>.
  The three foreign keys are checked; the result carries \<^verbatim>\<open>insertId\<close>.
\<close>

definition insert_comment ::
  "int \<Rightarrow> string \<Rightarrow> int \<Rightarrow> int \<Rightarrow> int option \<Rightarrow> db \<Rightarrow> store_error + (int \<times> db)" where
  "insert_comment now content post_id user_id parent_id d =
     (if \<not> has_post d post_id \<or> \<not> has_user d user_id
         \<or> (case parent_id of None \<Rightarrow> False | Some q \<Rightarrow> \<not> has_comment d q)
      then Inl ForeignKeyViolation
      else Inr (next_comment_id d,
                d\<lparr>comments := comments d @
                     [\<lparr>c_id = next_comment_id d, c_content = content, c_post_id = post_id,
                       c_user_id = user_id, c_parent_id = parent_id, c_created_at = now\<rparr>],
                  next_comment_id := next_comment_id d + 1\<rparr>))"

text \<open>
  \<^verbatim>\<open>INSERT INTO likes (user_id, post_id) VALUES (?, ?)\<close>, with the two foreign keys and
  \<^verbatim>\<open>UNIQUE KEY unique_like (user_id, post_id)\<close>.
\<close>

definition insert_like :: "int \<Rightarrow> int \<Rightarrow> int \<Rightarrow> db \<Rightarrow> store_error + db" where
  "insert_like now user_id post_id d =
     (if \<not> has_user d user_id \<or> \<not> has_post d post_id then Inl ForeignKeyViolation
      else if has_like d user_id post_id then Inl DuplicateEntry
      else Inr (d\<lparr>likes := likes d @
                     [\<lparr>l_id = next_like_id d, l_user_id = user_id, l_post_id = post_id,
                       l_created_at = now\<rparr>],
                  next_like_id := next_like_id d + 1\<rparr>))"

text \<open>
  \<^verbatim>\<open>LIMIT ? OFFSET ?\<close>: the server accepts only non-negative integers there; with a
  negative number the statement is a syntax error, which the query raises.
\<close>

definition sql_limit :: "int \<Rightarrow> int \<Rightarrow> 'a list \<Rightarrow> store_error + 'a list" where
  "sql_limit limit offset rows =
     (if limit < 0 \<or> offset < 0 then Inl ParseError
      else Inr (take (nat limit) (drop (nat offset) rows)))"

section \<open>Requests and responses\<close>

text \<open>
  \<^verbatim>\<open>req.user\<close>, as the authentication middleware leaves it.  The handlers below are
  the functions behind the middleware \<^verbatim>\<open>auth\<close> and \<^verbatim>\<open>adminAuth\<close>: they run once it has
  let the request through.  An id in the path (\<^verbatim>\<open>req.params.id\<close>) is the integer that
  the store reads from it.
\<close>

record auth_user =
  au_id :: int
  au_role :: role
  au_avatar :: "string option"

text \<open>
  A field of the request body that a validator \<^verbatim>\<open>isInt()\<close> looks at: absent
  (\<^verbatim>\<open>undefined\<close>), present and not an integer, a JSON number, or a string spelling
  an integer.  The two last differ in truthiness: \<^verbatim>\<open>0\<close> is falsy and \<^verbatim>\<open>"0"\<close> is
  not; the store converts both to the same number.
\<close>

datatype body_field = Missing | NotInt | Num int | Str int

fun field_int :: "body_field \<Rightarrow> int" where
  "field_int (Num n) = n"
| "field_int (Str n) = n"
| "field_int Missing = 0"
| "field_int NotInt = 0"

fun truthy :: "body_field \<Rightarrow> bool" where
  "truthy (Num n) = (n \<noteq> 0)"
| "truthy (Str n) = True"
| "truthy Missing = False"
| "truthy NotInt = False"

fun isInt :: "body_field \<Rightarrow> bool" where
  "isInt (Num n) = True"
| "isInt (Str n) = True"
| "isInt Missing = False"
| "isInt NotInt = False"

record comment_view =
  cv_comment :: comment_row
  cv_username :: string
  cv_full_name :: "string option"
  cv_avatar :: "string option"

record comment_item =
  ci_view :: comment_view
  ci_replies_count :: int

record post_view =
  pv_post :: post_row
  pv_username :: string
  pv_full_name :: "string option"
  pv_avatar :: "string option"
  pv_bio :: "string option"
  pv_comment_count :: int

text \<open>
  \<^verbatim>\<open>pg_total = None\<close> stands for a value that is not finite (a division by zero),
  which the handlers never produce: see \<open>query_int_nonzero\<close>.
\<close>

record pagination =
  pg_current :: int
  pg_total :: "int option"
  pg_hasNext :: bool
  pg_hasPrev :: bool

datatype body =
    Message string
  | Errors "string list"
  | CommentAdded string "comment_view option"
  | CommentsPage "comment_item list" pagination
  | Replies "comment_view list"
  | Liked string bool
  | PostFound "post_view"
  | PostCreated string int
  | UserRegistered string int

type_synonym response = "nat \<times> body"

definition server_error :: response where
  "server_error = (500, Message ''Server error'')"

section \<open>Pagination\<close>

subsection \<open>\<^verbatim>\<open>parseInt\<close>\<close>

text \<open>
  \<^verbatim>\<open>parseInt(string)\<close> with no radix: leading white space is skipped, a sign is
  read, a prefix \<^verbatim>\<open>0x\<close> or \<^verbatim>\<open>0X\<close> selects radix 16, and the longest prefix of
  digits of the radix is the number; with no digit the result is \<^verbatim>\<open>NaN\<close>, here
  \<open>None\<close>.  Strings are ASCII.
\<close>

definition StrWhiteSpaceChar :: "char \<Rightarrow> bool" where
  "StrWhiteSpaceChar c = (let n = (of_char c :: nat) in (9 \<le> n \<and> n \<le> 13) \<or> n = 32)"

definition digit_value :: "char \<Rightarrow> nat option" where
  "digit_value c =
     (let n = (of_char c :: nat) in
      if 48 \<le> n \<and> n \<le> 57 then Some (n - 48)
      else if 97 \<le> n \<and> n \<le> 122 then Some (n - 87)
      else if 65 \<le> n \<and> n \<le> 90 then Some (n - 55)
      else None)"

definition radix_digit :: "nat \<Rightarrow> char \<Rightarrow> bool" where
  "radix_digit R c = (case digit_value c of None \<Rightarrow> False | Some v \<Rightarrow> v < R)"

definition digits_value :: "nat \<Rightarrow> string \<Rightarrow> nat" where
  "digits_value R ds =
     foldl (\<lambda>acc c. case digit_value c of None \<Rightarrow> acc | Some v \<Rightarrow> acc * R + v) 0 ds"

definition parseInt :: "string \<Rightarrow> int option" where
  "parseInt input =
     (let s = dropWhile StrWhiteSpaceChar input;
          (sign, s1) = (case s of
                          [] \<Rightarrow> (1, s)
                        | c # r \<Rightarrow> if c = CHR ''-'' then (- 1, r)
                                   else if c = CHR ''+'' then (1, r) else (1, s));
          (R, s2) = (case s1 of
                       a # b # r \<Rightarrow> if a = CHR ''0'' \<and> (b = CHR ''x'' \<or> b = CHR ''X'')
                                       then (16, r) else (10, s1)
                     | _ \<Rightarrow> (10, s1));
          ds = takeWhile (radix_digit R) s2
      in if ds = [] then None else Some (sign * int (digits_value R ds)))"

text \<open>
  \<^verbatim>\<open>parseInt(req.query.x) || dflt\<close>: an absent parameter is \<^verbatim>\<open>undefined\<close>, which
  parses to \<^verbatim>\<open>NaN\<close>; \<^verbatim>\<open>NaN\<close> and \<^verbatim>\<open>0\<close> are falsy.
\<close>

definition query_int :: "string option \<Rightarrow> int \<Rightarrow> int" where
  "query_int q dflt =
     (case q of
        None \<Rightarrow> dflt
      | Some s \<Rightarrow> (case parseInt s of
                     None \<Rightarrow> dflt
                   | Some n \<Rightarrow> if n = 0 then dflt else n))"

subsection \<open>The three lines and the metadata every list endpoint shares\<close>

text \<open>
  \<^verbatim>\<open>
  const page = parseInt(req.query.page) || 1;
  const limit = parseInt(req.query.limit) || 20;     // or 10
  const offset = (page - 1) * limit;
  \<close>
\<close>

definition list_params :: "int \<Rightarrow> string option \<Rightarrow> string option \<Rightarrow> int \<times> int \<times> int" where
  "list_params dflt qpage qlimit =
     (let page = query_int qpage 1;
          limit = query_int qlimit dflt;
          offset = (page - 1) * limit
      in (page, limit, offset))"

text \<open>\<^verbatim>\<open>Math.ceil(total / limit)\<close>: a division of numbers, then the ceiling.\<close>

definition ceil_div :: "int \<Rightarrow> int \<Rightarrow> int option" where
  "ceil_div t l = (if l = 0 then None else Some \<lceil>real_of_int t / real_of_int l\<rceil>)"

definition paginate :: "int \<Rightarrow> int \<Rightarrow> int \<Rightarrow> pagination" where
  "paginate page limit count =
     \<lparr>pg_current = page,
      pg_total = ceil_div count limit,
      pg_hasNext = (page * limit < count),
      pg_hasPrev = (page > 1)\<rparr>"

section \<open>The comments router\<close>

text \<open>The join \<^verbatim>\<open>FROM comments c JOIN users u ON c.user_id = u.id\<close> over given comments.\<close>

definition join_users :: "user_row list \<Rightarrow> comment_row list \<Rightarrow> comment_view list" where
  "join_users us cs =
     concat (map (\<lambda>c. map (\<lambda>u. \<lparr>cv_comment = c, cv_username = u_username u,
                                  cv_full_name = u_full_name u, cv_avatar = u_avatar u\<rparr>)
                          (filter (\<lambda>u. c_user_id c = u_id u) us)) cs)"

definition replies_count :: "db \<Rightarrow> int \<Rightarrow> int" where
  "replies_count d i = int (length (filter (\<lambda>c. c_parent_id c = Some i) (comments d)))"

text \<open>\<^verbatim>\<open>GET /post/:postId\<close>: the top-level comments of a post, newest first.\<close>

definition get_post_comments :: "int \<Rightarrow> string option \<Rightarrow> string option \<Rightarrow> db \<Rightarrow> response" where
  "get_post_comments postId qpage qlimit d =
     (let (page, limit, offset) = list_params 20 qpage qlimit;
          matching = filter (\<lambda>c. c_post_id c = postId \<and> c_parent_id c = None) (comments d);
          ordered = sort_key (\<lambda>v. - c_created_at (cv_comment v)) (join_users (users d) matching)
      in case sql_limit limit offset ordered of
           Inl e \<Rightarrow> server_error
         | Inr rows \<Rightarrow>
             (200, CommentsPage
                     (map (\<lambda>v. \<lparr>ci_view = v,
                                 ci_replies_count = replies_count d (c_id (cv_comment v))\<rparr>) rows)
                     (paginate page limit (int (length matching)))))"

text \<open>\<^verbatim>\<open>GET /comment/:commentId/replies\<close>: the direct replies, oldest first.\<close>

definition get_replies :: "int \<Rightarrow> db \<Rightarrow> response" where
  "get_replies commentId d =
     (200, Replies (sort_key (\<lambda>v. c_created_at (cv_comment v))
                      (join_users (users d)
                         (filter (\<lambda>c. c_parent_id c = Some commentId) (comments d)))))"

text \<open>
  \<^verbatim>\<open>POST /\<close>.  The validators run first; a body whose \<^verbatim>\<open>content\<close> is absent fails
  \<^verbatim>\<open>notEmpty()\<close> as the empty string does, so \<open>content\<close> is a string.
\<close>

definition add_comment_errors :: "string \<Rightarrow> body_field \<Rightarrow> body_field \<Rightarrow> string list" where
  "add_comment_errors content post_id parent_id =
     (if content = [] then [''Comment content is required''] else []) @
     (if isInt post_id then [] else [''Valid post ID is required'']) @
     (if parent_id = Missing \<or> isInt parent_id then []
      else [''Valid parent comment ID is required''])"

definition add_comment ::
  "auth_user \<Rightarrow> int \<Rightarrow> string \<Rightarrow> body_field \<Rightarrow> body_field \<Rightarrow> db \<Rightarrow> response \<times> db" where
  "add_comment user now content post_id parent_id d =
     (let errors = add_comment_errors content post_id parent_id in
      if errors \<noteq> [] then ((400, Errors errors), d)
      else if \<not> list_ex (\<lambda>p. p_id p = field_int post_id \<and> p_status p = Published) (posts d)
      then ((404, Message ''Post not found''), d)
      else if truthy parent_id \<and>
              \<not> list_ex (\<lambda>c. c_id c = field_int parent_id \<and> c_post_id c = field_int post_id)
                  (comments d)
      then ((404, Message ''Parent comment not found''), d)
      else (case insert_comment now content (field_int post_id) (au_id user)
                   (if truthy parent_id then Some (field_int parent_id) else None) d of
              Inl e \<Rightarrow> (server_error, d)
            | Inr (insertId, d') \<Rightarrow>
                ((201, CommentAdded ''Comment added successfully''
                         (case join_users (users d')
                                 (filter (\<lambda>c. c_id c = insertId) (comments d')) of
                            [] \<Rightarrow> None
                          | v # _ \<Rightarrow> Some v)), d')))"

text \<open>\<^verbatim>\<open>PUT /:id\<close>: only the author's own comment is found by the ownership query.\<close>

definition update_comment :: "auth_user \<Rightarrow> int \<Rightarrow> string \<Rightarrow> db \<Rightarrow> response \<times> db" where
  "update_comment user commentId content d =
     (if content = [] then ((400, Errors [''Comment content is required'']), d)
      else if \<not> list_ex (\<lambda>c. c_id c = commentId \<and> c_user_id c = au_id user) (comments d)
      then ((404, Message ''Comment not found or access denied''), d)
      else ((200, Message ''Comment updated successfully''),
            d\<lparr>comments := map (\<lambda>c. if c_id c = commentId then c\<lparr>c_content := content\<rparr> else c)
                             (comments d)\<rparr>))"

text \<open>\<^verbatim>\<open>DELETE /:id\<close>: the author's own comment, or any comment for an admin.\<close>

definition delete_comment :: "auth_user \<Rightarrow> int \<Rightarrow> db \<Rightarrow> response \<times> db" where
  "delete_comment user commentId d =
     (if \<not> list_ex (\<lambda>c. c_id c = commentId \<and> (c_user_id c = au_id user \<or> au_role user = RoleAdmin))
            (comments d)
      then ((404, Message ''Comment not found or access denied''), d)
      else ((200, Message ''Comment deleted successfully''),
            delete_comments_where (\<lambda>c. c_id c = commentId \<or> c_parent_id c = Some commentId) d))"

section \<open>The admin router\<close>

text \<open>\<^verbatim>\<open>DELETE /comments/:id\<close>, behind \<^verbatim>\<open>adminAuth\<close>: the delete is issued at once.\<close>

definition admin_delete_comment :: "int \<Rightarrow> db \<Rightarrow> response \<times> db" where
  "admin_delete_comment commentId d =
     ((200, Message ''Comment deleted successfully''),
      delete_comments_where (\<lambda>c. c_id c = commentId \<or> c_parent_id c = Some commentId) d)"

text \<open>\<^verbatim>\<open>DELETE /users/:id\<close>: an admin cannot delete the own account.\<close>

definition admin_delete_user :: "auth_user \<Rightarrow> int \<Rightarrow> db \<Rightarrow> response \<times> db" where
  "admin_delete_user user userId d =
     (if userId = au_id user then ((400, Message ''Cannot delete your own account''), d)
      else ((200, Message ''User deleted successfully''),
            delete_users_where (\<lambda>u. u_id u = userId) d))"

text \<open>\<^verbatim>\<open>PUT /users/:id/role\<close>, with the validator \<^verbatim>\<open>isIn(['user', 'admin'])\<close>.\<close>

definition role_of :: "string \<Rightarrow> role option" where
  "role_of s = (if s = ''user'' then Some RoleUser
                else if s = ''admin'' then Some RoleAdmin else None)"

definition admin_update_role :: "auth_user \<Rightarrow> int \<Rightarrow> string \<Rightarrow> db \<Rightarrow> response \<times> db" where
  "admin_update_role user userId r d =
     (case role_of r of
        None \<Rightarrow> ((400, Errors [''Invalid role'']), d)
      | Some new_role \<Rightarrow>
          if userId = au_id user \<and> r = ''user''
          then ((400, Message ''Cannot remove your own admin role''), d)
          else ((200, Message ''User role updated successfully''),
                d\<lparr>users := map (\<lambda>u. if u_id u = userId then u\<lparr>u_role := new_role\<rparr> else u)
                               (users d)\<rparr>))"

text \<open>\<^verbatim>\<open>PUT /posts/:id/status\<close>, with the validator \<^verbatim>\<open>isIn(['draft', 'published'])\<close>.\<close>

definition status_of :: "string \<Rightarrow> post_status option" where
  "status_of s = (if s = ''draft'' then Some Draft
                  else if s = ''published'' then Some Published else None)"

definition admin_update_post_status :: "int \<Rightarrow> string \<Rightarrow> db \<Rightarrow> response \<times> db" where
  "admin_update_post_status postId st d =
     (case status_of st of
        None \<Rightarrow> ((400, Errors [''Invalid status'']), d)
      | Some new_status \<Rightarrow>
          ((200, Message ''Post status updated successfully''),
           d\<lparr>posts := map (\<lambda>p. if p_id p = postId then p\<lparr>p_status := new_status\<rparr> else p)
                          (posts d)\<rparr>))"

text \<open>\<^verbatim>\<open>DELETE /posts/:id\<close> of the admin router.\<close>

definition admin_delete_post :: "int \<Rightarrow> db \<Rightarrow> response \<times> db" where
  "admin_delete_post postId d =
     ((200, Message ''Post deleted successfully''), delete_posts_where (\<lambda>p. p_id p = postId) d)"

section \<open>The posts router\<close>

text \<open>
  \<^verbatim>\<open>GET /:id\<close>: the view counter is updated first, then the published post is looked
  up together with its author.
\<close>

definition comment_count :: "db \<Rightarrow> int \<Rightarrow> int" where
  "comment_count d i = int (length (filter (\<lambda>c. c_post_id c = i) (comments d)))"

definition increment_views :: "int \<Rightarrow> db \<Rightarrow> db" where
  "increment_views postId d =
     d\<lparr>posts := map (\<lambda>p. if p_id p = postId then p\<lparr>p_views := p_views p + 1\<rparr> else p) (posts d)\<rparr>"

definition select_published_post :: "int \<Rightarrow> db \<Rightarrow> post_view list" where
  "select_published_post postId d =
     concat (map (\<lambda>p. map (\<lambda>u. \<lparr>pv_post = p, pv_username = u_username u,
                                  pv_full_name = u_full_name u,
                                  pv_avatar = u_avatar u, pv_bio = u_bio u,
                                  pv_comment_count = comment_count d (p_id p)\<rparr>)
                          (filter (\<lambda>u. p_author_id p = u_id u) (users d)))
               (filter (\<lambda>p. p_id p = postId \<and> p_status p = Published) (posts d)))"

definition get_post :: "int \<Rightarrow> db \<Rightarrow> response \<times> db" where
  "get_post postId d =
     (let d' = increment_views postId d
      in case select_published_post postId d' of
           [] \<Rightarrow> ((404, Message ''Post not found''), d')
         | v # _ \<Rightarrow> ((200, PostFound v), d'))"

text \<open>
  \<^verbatim>\<open>POST /\<close>.  \<open>file\<close> is the path under which the upload middleware stored the
  image, if one was sent; an absent \<^verbatim>\<open>excerpt\<close> is stored as \<^verbatim>\<open>NULL\<close>.
\<close>

definition post_errors :: "string \<Rightarrow> string \<Rightarrow> string \<Rightarrow> string list" where
  "post_errors title content st =
     (if title = [] then [''Title is required''] else []) @
     (if content = [] then [''Content is required''] else []) @
     (if status_of st = None then [''Invalid status''] else [])"

definition create_post ::
  "auth_user \<Rightarrow> int \<Rightarrow> string \<Rightarrow> string \<Rightarrow> string option \<Rightarrow> string option \<Rightarrow> string \<Rightarrow> db
     \<Rightarrow> response \<times> db" where
  "create_post user now title content excerpt file st d =
     (case status_of st of
        None \<Rightarrow> ((400, Errors (post_errors title content st)), d)
      | Some new_status \<Rightarrow>
          if post_errors title content st \<noteq> [] then ((400, Errors (post_errors title content st)), d)
          else if \<not> has_user d (au_id user) then (server_error, d)
          else ((201, PostCreated ''Post created successfully'' (next_post_id d)),
                d\<lparr>posts := posts d @
                     [\<lparr>p_id = next_post_id d, p_title = title, p_content = content,
                       p_excerpt = excerpt, p_featured_image = file, p_author_id = au_id user,
                       p_status = new_status, p_views = 0, p_likes = 0, p_created_at = now\<rparr>],
                  next_post_id := next_post_id d + 1\<rparr>))"

text \<open>\<^verbatim>\<open>PUT /:id\<close>: the author's own post, or any post for an admin.\<close>

definition update_post ::
  "auth_user \<Rightarrow> int \<Rightarrow> string \<Rightarrow> string \<Rightarrow> string option \<Rightarrow> string option \<Rightarrow> string \<Rightarrow> db
     \<Rightarrow> response \<times> db" where
  "update_post user postId title content excerpt file st d =
     (case status_of st of
        None \<Rightarrow> ((400, Errors (post_errors title content st)), d)
      | Some new_status \<Rightarrow>
          if post_errors title content st \<noteq> [] then ((400, Errors (post_errors title content st)), d)
          else (case filter (\<lambda>p. p_id p = postId \<and>
                                   (p_author_id p = au_id user \<or> au_role user = RoleAdmin))
                       (posts d) of
                  [] \<Rightarrow> ((404, Message ''Post not found or access denied''), d)
                | found # _ \<Rightarrow>
                    ((200, Message ''Post updated successfully''),
                     d\<lparr>posts :=
                         map (\<lambda>p. if p_id p = postId
                                   then p\<lparr>p_title := title, p_content := content,
                                          p_excerpt := excerpt,
                                          p_featured_image :=
                                            (case file of None \<Rightarrow> p_featured_image found
                                             | Some f \<Rightarrow> Some f),
                                          p_status := new_status\<rparr>
                                   else p)
                           (posts d)\<rparr>)))"

text \<open>\<^verbatim>\<open>DELETE /:id\<close>.\<close>

definition delete_post :: "auth_user \<Rightarrow> int \<Rightarrow> db \<Rightarrow> response \<times> db" where
  "delete_post user postId d =
     (if \<not> list_ex (\<lambda>p. p_id p = postId \<and> (p_author_id p = au_id user \<or> au_role user = RoleAdmin))
            (posts d)
      then ((404, Message ''Post not found or access denied''), d)
      else ((200, Message ''Post deleted successfully''),
            delete_posts_where (\<lambda>p. p_id p = postId) d))"

text \<open>\<^verbatim>\<open>POST /:id/like\<close>: the existence check, then two statements on either branch.\<close>

definition add_likes :: "int \<Rightarrow> int \<Rightarrow> db \<Rightarrow> db" where
  "add_likes k postId d =
     d\<lparr>posts := map (\<lambda>p. if p_id p = postId then p\<lparr>p_likes := p_likes p + k\<rparr> else p) (posts d)\<rparr>"

definition like_post :: "auth_user \<Rightarrow> int \<Rightarrow> int \<Rightarrow> db \<Rightarrow> response \<times> db" where
  "like_post user now postId d =
     (if has_like d (au_id user) postId
      then ((200, Liked ''Post unliked'' False),
            add_likes (- 1) postId
              (d\<lparr>likes := filter (\<lambda>l. \<not> (l_user_id l = au_id user \<and> l_post_id l = postId))
                             (likes d)\<rparr>))
      else (case insert_like now (au_id user) postId d of
              Inl e \<Rightarrow> (server_error, d)
            | Inr d' \<Rightarrow> ((200, Liked ''Post liked'' True), add_likes 1 postId d')))"

section \<open>The users and auth routers\<close>

text \<open>
  \<^verbatim>\<open>PUT /profile\<close> of the users router; \<open>file\<close> is the stored avatar, if one was
  uploaded.
\<close>

definition update_profile ::
  "auth_user \<Rightarrow> string \<Rightarrow> string option \<Rightarrow> string option \<Rightarrow> db \<Rightarrow> response \<times> db" where
  "update_profile user full_name bio file d =
     (if full_name = [] then ((400, Errors [''Full name is required'']), d)
      else ((200, Message ''Profile updated successfully''),
            d\<lparr>users := map (\<lambda>u. if u_id u = au_id user
                                 then u\<lparr>u_full_name := Some full_name, u_bio := bio,
                                        u_avatar := (case file of None \<Rightarrow> au_avatar user
                                                     | Some f \<Rightarrow> Some f)\<rparr>
                                 else u)
                           (users d)\<rparr>))"

text \<open>\<^verbatim>\<open>PUT /profile\<close> of the auth router.\<close>

definition auth_update_profile ::
  "auth_user \<Rightarrow> string \<Rightarrow> string option \<Rightarrow> db \<Rightarrow> response \<times> db" where
  "auth_update_profile user full_name bio d =
     (if full_name = [] then ((400, Errors [''Full name is required'']), d)
      else ((200, Message ''Profile updated successfully''),
            d\<lparr>users := map (\<lambda>u. if u_id u = au_id user
                                 then u\<lparr>u_full_name := Some full_name, u_bio := bio\<rparr> else u)
                           (users d)\<rparr>))"

text \<open>
  \<^verbatim>\<open>POST /register\<close>.  The verdict of \<^verbatim>\<open>isEmail()\<close> and the hash that
  \<^verbatim>\<open>bcrypt\<close> returns are inputs; the token of the response is left out.
\<close>

definition register_errors :: "string \<Rightarrow> bool \<Rightarrow> string \<Rightarrow> string \<Rightarrow> string list" where
  "register_errors username email_ok password full_name =
     (if length username < 3 then [''Username must be at least 3 characters''] else []) @
     (if email_ok then [] else [''Please enter a valid email'']) @
     (if length password < 6 then [''Password must be at least 6 characters''] else []) @
     (if full_name = [] then [''Full name is required''] else [])"

definition insert_user ::
  "int \<Rightarrow> string \<Rightarrow> string \<Rightarrow> string \<Rightarrow> string \<Rightarrow> role \<Rightarrow> db \<Rightarrow> store_error + (int \<times> db)" where
  "insert_user now username email hashed full_name r d =
     (if list_ex (\<lambda>u. u_username u = username \<or> u_email u = email) (users d)
      then Inl DuplicateEntry
      else Inr (next_user_id d,
                d\<lparr>users := users d @
                     [\<lparr>u_id = next_user_id d, u_username = username, u_email = email,
                       u_password = hashed, u_full_name = Some full_name, u_avatar = None,
                       u_role = r, u_bio = None, u_created_at = now\<rparr>],
                  next_user_id := next_user_id d + 1\<rparr>))"

definition register ::
  "int \<Rightarrow> string \<Rightarrow> string \<Rightarrow> bool \<Rightarrow> string \<Rightarrow> string \<Rightarrow> string \<Rightarrow> db \<Rightarrow> response \<times> db" where
  "register now username email email_ok password hashed full_name d =
     (if register_errors username email_ok password full_name \<noteq> []
      then ((400, Errors (register_errors username email_ok password full_name)), d)
      else if list_ex (\<lambda>u. u_email u = email \<or> u_username u = username) (users d)
      then ((400, Message ''User already exists''), d)
      else (case insert_user now username email hashed full_name RoleUser d of
              Inl e \<Rightarrow> (server_error, d)
            | Inr (insertId, d') \<Rightarrow> ((201, UserRegistered ''User registered successfully'' insertId), d')))"

text \<open>The administrator's account that \<^verbatim>\<open>initializeDatabase\<close> creates when there is none.\<close>

definition create_admin :: "int \<Rightarrow> string \<Rightarrow> db \<Rightarrow> db" where
  "create_admin now hashed d =
     (if list_ex (\<lambda>u. u_role u = RoleAdmin) (users d) then d
      else (case insert_user now ''admin'' ''admin@blog.com'' hashed ''Administrator'' RoleAdmin d of
              Inl e \<Rightarrow> d
            | Inr (insertId, d') \<Rightarrow> d'))"

section \<open>The system as a transition function\<close>

text \<open>
  Every operation of the routers that writes to the store, the two comment listings, and
  the creation of the administrator at start-up, which answers no request: its response
  here is the line it logs.
\<close>

datatype request =
    GetPostComments int "string option" "string option"
  | GetReplies int
  | AddComment auth_user int string body_field body_field
  | UpdateComment auth_user int string
  | DeleteComment auth_user int
  | AdminDeleteComment int
  | AdminDeleteUser auth_user int
  | AdminUpdateRole auth_user int string
  | AdminUpdatePostStatus int string
  | AdminDeletePost int
  | GetPost int
  | CreatePost auth_user int string string "string option" "string option" string
  | UpdatePost auth_user int string string "string option" "string option" string
  | DeletePost auth_user int
  | LikePost auth_user int int
  | UpdateProfile auth_user string "string option" "string option"
  | AuthUpdateProfile auth_user string "string option"
  | Register int string string bool string string string
  | CreateAdmin int string

fun step :: "request \<Rightarrow> db \<Rightarrow> response \<times> db" where
  "step (GetPostComments postId qpage qlimit) d = (get_post_comments postId qpage qlimit d, d)"
| "step (GetReplies commentId) d = (get_replies commentId d, d)"
| "step (AddComment user now content post_id parent_id) d =
     add_comment user now content post_id parent_id d"
| "step (UpdateComment user commentId content) d = update_comment user commentId content d"
| "step (DeleteComment user commentId) d = delete_comment user commentId d"
| "step (AdminDeleteComment commentId) d = admin_delete_comment commentId d"
| "step (AdminDeleteUser user userId) d = admin_delete_user user userId d"
| "step (AdminUpdateRole user userId r) d = admin_update_role user userId r d"
| "step (AdminUpdatePostStatus postId st) d = admin_update_post_status postId st d"
| "step (AdminDeletePost postId) d = admin_delete_post postId d"
| "step (GetPost postId) d = get_post postId d"
| "step (CreatePost user now title content excerpt file st) d =
     create_post user now title content excerpt file st d"
| "step (UpdatePost user postId title content excerpt file st) d =
     update_post user postId title content excerpt file st d"
| "step (DeletePost user postId) d = delete_post user postId d"
| "step (LikePost user now postId) d = like_post user now postId d"
| "step (UpdateProfile user full_name bio file) d = update_profile user full_name bio file d"
| "step (AuthUpdateProfile user full_name bio) d = auth_update_profile user full_name bio d"
| "step (Register now username email email_ok password hashed full_name) d =
     register now username email email_ok password hashed full_name d"
| "step (CreateAdmin now hashed) d = ((200, Message ''Database initialized successfully''),
                                       create_admin now hashed d)"

fun run :: "request list \<Rightarrow> db \<Rightarrow> db" where
  "run [] d = d"
| "run (r # rs) d = run rs (snd (step r d))"

section \<open>Properties of the store that the claims speak about\<close>

text \<open>
  No cross-post nesting: the parent of a comment, if it has one, is a comment of the store
  with the same \<^verbatim>\<open>post_id\<close>.
\<close>

definition same_post_parent :: "comment_row list \<Rightarrow> comment_row \<Rightarrow> bool" where
  "same_post_parent cs c =
     (case c_parent_id c of
        None \<Rightarrow> True
      | Some q \<Rightarrow> list_ex (\<lambda>p. c_id p = q \<and> c_post_id p = c_post_id c) cs)"

definition no_cross_post_nesting :: "db \<Rightarrow> bool" where
  "no_cross_post_nesting d = list_all (same_post_parent (comments d)) (comments d)"

text \<open>The comments a delete statement with condition \<open>w\<close> takes away: those that satisfy
  \<open>w\<close> and, through \<^verbatim>\<open>parent_id\<close>, all their descendants.\<close>

inductive doomed :: "(comment_row \<Rightarrow> bool) \<Rightarrow> comment_row list \<Rightarrow> comment_row \<Rightarrow> bool"
  for w :: "comment_row \<Rightarrow> bool" and cs :: "comment_row list" where
  matched: "c \<in> set cs \<Longrightarrow> w c \<Longrightarrow> doomed w cs c"
| reply: "doomed w cs p \<Longrightarrow> c \<in> set cs \<Longrightarrow> c_parent_id c = Some (c_id p) \<Longrightarrow> doomed w cs c"




section \<open>Inputs of the query string\<close>






section \<open>Sample stores\<close>

definition empty_db :: db where
  "empty_db = \<lparr>users = [], posts = [], comments = [], likes = [],
               next_user_id = 1, next_post_id = 1, next_comment_id = 1, next_like_id = 1\<rparr>"

text \<open>
  A small blog: two users and the administrator, a published post with a comment, a reply
  to it and a reply to the reply, a draft, and one like.
\<close>

definition alice :: user_row where
  "alice = \<lparr>u_id = 1, u_username = ''alice'', u_email = ''alice@x.com'', u_password = ''h1'',
            u_full_name = Some ''Alice'', u_avatar = None, u_role = RoleUser, u_bio = None,
            u_created_at = 100\<rparr>"

definition bob :: user_row where
  "bob = \<lparr>u_id = 2, u_username = ''bob'', u_email = ''bob@x.com'', u_password = ''h2'',
          u_full_name = Some ''Bob'', u_avatar = None, u_role = RoleUser, u_bio = None,
          u_created_at = 101\<rparr>"

definition root_admin :: user_row where
  "root_admin = \<lparr>u_id = 3, u_username = ''admin'', u_email = ''admin@blog.com'',
                 u_password = ''h3'', u_full_name = Some ''Administrator'', u_avatar = None,
                 u_role = RoleAdmin, u_bio = None, u_created_at = 99\<rparr>"

definition alice_auth :: auth_user where
  "alice_auth = \<lparr>au_id = 1, au_role = RoleUser, au_avatar = None\<rparr>"

definition bob_auth :: auth_user where
  "bob_auth = \<lparr>au_id = 2, au_role = RoleUser, au_avatar = None\<rparr>"

definition admin_auth :: auth_user where
  "admin_auth = \<lparr>au_id = 3, au_role = RoleAdmin, au_avatar = None\<rparr>"

definition hello_post :: post_row where
  "hello_post = \<lparr>p_id = 1, p_title = ''Hello'', p_content = ''First post'', p_excerpt = None,
                 p_featured_image = None, p_author_id = 1, p_status = Published, p_views = 5,
                 p_likes = 1, p_created_at = 110\<rparr>"

definition draft_post :: post_row where
  "draft_post = \<lparr>p_id = 2, p_title = ''Notes'', p_content = ''Unfinished'', p_excerpt = None,
                 p_featured_image = None, p_author_id = 2, p_status = Draft, p_views = 0,
                 p_likes = 0, p_created_at = 111\<rparr>"

definition top_comment :: comment_row where
  "top_comment = \<lparr>c_id = 1, c_content = ''hello'', c_post_id = 1, c_user_id = 1,
                  c_parent_id = None, c_created_at = 120\<rparr>"

definition reply_comment :: comment_row where
  "reply_comment = \<lparr>c_id = 2, c_content = ''hi alice'', c_post_id = 1, c_user_id = 2,
                    c_parent_id = Some 1, c_created_at = 121\<rparr>"

definition nested_reply :: comment_row where
  "nested_reply = \<lparr>c_id = 3, c_content = ''hi bob'', c_post_id = 1, c_user_id = 1,
                   c_parent_id = Some 2, c_created_at = 122\<rparr>"

definition blog_db :: db where
  "blog_db = \<lparr>users = [alice, bob, root_admin], posts = [hello_post, draft_post],
              comments = [top_comment, reply_comment, nested_reply],
              likes = [\<lparr>l_id = 1, l_user_id = 2, l_post_id = 1, l_created_at = 115\<rparr>],
              next_user_id = 4, next_post_id = 3, next_comment_id = 4, next_like_id = 2\<rparr>"

lemmas sample_defs = alice_def bob_def root_admin_def alice_auth_def bob_auth_def admin_auth_def
  hello_post_def draft_post_def top_comment_def reply_comment_def nested_reply_def blog_db_def

section \<open>Lemmas\<close>

subsection \<open>The cascade of the key on \<^verbatim>\<open>parent_id\<close>\<close>

lemma refers_to_nil [simp]: "\<not> refers_to [] c"
  by (simp add: refers_to_def split: option.splits)



lemma cascade_replies_subset: "set (cascade_replies dead cs) \<subseteq> set cs"
proof (induction dead cs rule: cascade_replies.induct)
  case (1 dead cs)
  show ?case
  proof (cases "list_ex (refers_to dead) cs")
    case True
    with 1 have "set (cascade_replies (map c_id (filter (refers_to dead) cs))
                    (filter (\<lambda>c. \<not> refers_to dead c) cs)) \<subseteq> set cs"
      by auto
    with True show ?thesis
      by (subst cascade_replies.simps) simp
  next
    case False
    then show ?thesis
      by (subst cascade_replies.simps) simp
  qed
qed

lemma cascade_replies_no_ref:
  "c \<in> set (cascade_replies dead cs) \<Longrightarrow> \<not> refers_to dead c"
proof (induction dead cs rule: cascade_replies.induct)
  case (1 dead cs)
  show ?case
  proof (cases "list_ex (refers_to dead) cs")
    case True
    with 1(2) have "c \<in> set (cascade_replies (map c_id (filter (refers_to dead) cs))
                       (filter (\<lambda>c. \<not> refers_to dead c) cs))"
      by (subst (asm) cascade_replies.simps) simp
    then have "c \<in> set (filter (\<lambda>c. \<not> refers_to dead c) cs)"
      using cascade_replies_subset by blast
    then show ?thesis by simp
  next
    case False
    with 1(2) have "c \<in> set cs"
      by (subst (asm) cascade_replies.simps) simp
    with False show ?thesis
      by (auto simp: list_ex_iff)
  qed
qed

lemma cascade_replies_closed:
  "c \<in> set (cascade_replies dead cs) \<Longrightarrow> c_parent_id c = Some (c_id p) \<Longrightarrow> p \<in> set cs
     \<Longrightarrow> p \<in> set (cascade_replies dead cs)"
proof (induction dead cs rule: cascade_replies.induct)
  case (1 dead cs)
  show ?case
  proof (cases "list_ex (refers_to dead) cs")
    case True
    let ?dead' = "map c_id (filter (refers_to dead) cs)"
    let ?cs' = "filter (\<lambda>c. \<not> refers_to dead c) cs"
    have unfold: "cascade_replies dead cs = cascade_replies ?dead' ?cs'"
      using True by (subst cascade_replies.simps) simp
    with 1(2) have c: "c \<in> set (cascade_replies ?dead' ?cs')" by simp
    have "\<not> refers_to dead p"
    proof
      assume "refers_to dead p"
      with 1(4) have "c_id p \<in> set ?dead'" by auto
      with 1(3) have "refers_to ?dead' c" by (simp add: refers_to_def)
      with c show False using cascade_replies_no_ref by blast
    qed
    with 1(4) have "p \<in> set ?cs'" by simp
    with 1(1) [OF True c 1(3)] show ?thesis
      by (simp add: unfold)
  next
    case False
    then show ?thesis
      using 1(4) by (subst cascade_replies.simps) simp
  qed
qed

lemma cascade_replies_filter:
  "cascade_replies dead cs = filter (\<lambda>c. c \<in> set (cascade_replies dead cs)) cs"
proof (induction dead cs rule: cascade_replies.induct)
  case (1 dead cs)
  show ?case
  proof (cases "list_ex (refers_to dead) cs")
    case True
    let ?dead' = "map c_id (filter (refers_to dead) cs)"
    let ?cs' = "filter (\<lambda>c. \<not> refers_to dead c) cs"
    have unfold: "cascade_replies dead cs = cascade_replies ?dead' ?cs'"
      using True by (subst cascade_replies.simps) simp
    have "cascade_replies ?dead' ?cs' = filter (\<lambda>c. c \<in> set (cascade_replies ?dead' ?cs')) ?cs'"
      using 1 [OF True] .
    also have "\<dots> = filter (\<lambda>c. c \<in> set (cascade_replies ?dead' ?cs')) cs"
      using cascade_replies_subset [of ?dead' ?cs']
      by (auto intro!: filter_cong)
    finally show ?thesis
      by (simp add: unfold)
  next
    case False
    then have "cascade_replies dead cs = cs"
      by (subst cascade_replies.simps) simp
    then show ?thesis by simp
  qed
qed

lemma cascade_replies_removed_doomed:
  assumes "set cs \<subseteq> set cs0"
    and "\<forall>i\<in>set dead. \<exists>p. doomed w cs0 p \<and> c_id p = i"
    and "c \<in> set cs" and "c \<notin> set (cascade_replies dead cs)"
  shows "doomed w cs0 c"
  using assms
proof (induction dead cs rule: cascade_replies.induct)
  case (1 dead cs)
  show ?case
  proof (cases "list_ex (refers_to dead) cs")
    case True
    let ?dead' = "map c_id (filter (refers_to dead) cs)"
    let ?cs' = "filter (\<lambda>c. \<not> refers_to dead c) cs"
    have unfold: "cascade_replies dead cs = cascade_replies ?dead' ?cs'"
      using True by (subst cascade_replies.simps) simp
    have hit: "doomed w cs0 x" if "x \<in> set cs" "refers_to dead x" for x
    proof -
      from that(2) obtain q where q: "c_parent_id x = Some q" "q \<in> set dead"
        by (auto simp: refers_to_def split: option.splits)
      with 1(3) obtain p where "doomed w cs0 p" "c_id p = q" by blast
      with q that(1) 1(2) show ?thesis
        by (auto intro: doomed.reply)
    qed
    show ?thesis
    proof (cases "refers_to dead c")
      case True
      with hit 1(4) show ?thesis by blast
    next
      case False
      with 1(4) have "c \<in> set ?cs'" by simp
      moreover have "set ?cs' \<subseteq> set cs0" using 1(2) by auto
      moreover have "\<forall>i\<in>set ?dead'. \<exists>p. doomed w cs0 p \<and> c_id p = i"
        using hit by auto
      moreover have "c \<notin> set (cascade_replies ?dead' ?cs')"
        using 1(5) by (simp add: unfold)
      ultimately show ?thesis
        using 1(1) [OF \<open>list_ex (refers_to dead) cs\<close>] by blast
    qed
  next
    case False
    then have "cascade_replies dead cs = cs"
      by (subst cascade_replies.simps) simp
    with 1(4,5) show ?thesis by simp
  qed
qed

lemma delete_comment_rows_subset: "set (delete_comment_rows w cs) \<subseteq> set cs"
  using cascade_replies_subset [of "map c_id (filter w cs)" "filter (\<lambda>c. \<not> w c) cs"]
  by (auto simp: delete_comment_rows_def)

lemma delete_comment_rows_not_matched:
  "c \<in> set (delete_comment_rows w cs) \<Longrightarrow> \<not> w c"
  using cascade_replies_subset [of "map c_id (filter w cs)" "filter (\<lambda>c. \<not> w c) cs"]
  by (auto simp: delete_comment_rows_def)

lemma delete_comment_rows_closed:
  assumes "c \<in> set (delete_comment_rows w cs)" and "c_parent_id c = Some (c_id p)"
    and "p \<in> set cs"
  shows "p \<in> set (delete_comment_rows w cs)"
proof -
  let ?dead = "map c_id (filter w cs)"
  let ?rest = "filter (\<lambda>c. \<not> w c) cs"
  from assms(1) have c: "c \<in> set (cascade_replies ?dead ?rest)"
    by (simp add: delete_comment_rows_def)
  have "\<not> w p"
  proof
    assume "w p"
    with assms(3) have "c_id p \<in> set ?dead" by auto
    with assms(2) have "refers_to ?dead c" by (simp add: refers_to_def)
    with c show False using cascade_replies_no_ref by blast
  qed
  with assms(3) have "p \<in> set ?rest" by simp
  with c assms(2) show ?thesis
    unfolding delete_comment_rows_def by (rule cascade_replies_closed)
qed

lemma doomed_in_set: "doomed w cs c \<Longrightarrow> c \<in> set cs"
  by (induction rule: doomed.induct) auto

lemma doomed_removed: "doomed w cs c \<Longrightarrow> c \<notin> set (delete_comment_rows w cs)"
proof (induction rule: doomed.induct)
  case (matched c)
  then show ?case using delete_comment_rows_not_matched by blast
next
  case (reply p c)
  then show ?case using delete_comment_rows_closed doomed_in_set by blast
qed

lemma removed_doomed:
  assumes "c \<in> set cs" and "c \<notin> set (delete_comment_rows w cs)"
  shows "doomed w cs c"
proof (cases "w c")
  case True
  with assms(1) show ?thesis by (rule doomed.matched)
next
  case False
  let ?dead = "map c_id (filter w cs)"
  let ?rest = "filter (\<lambda>c. \<not> w c) cs"
  have "set ?rest \<subseteq> set cs" by auto
  moreover have "\<forall>i\<in>set ?dead. \<exists>p. doomed w cs p \<and> c_id p = i"
    by (auto intro: doomed.matched)
  moreover have "c \<in> set ?rest" using assms(1) False by simp
  moreover have "c \<notin> set (cascade_replies ?dead ?rest)"
    using assms(2) by (simp add: delete_comment_rows_def)
  ultimately show ?thesis by (rule cascade_replies_removed_doomed)
qed

lemma delete_comment_rows_eq:
  "delete_comment_rows w cs = filter (\<lambda>c. \<not> doomed w cs c) cs"
proof -
  let ?dead = "map c_id (filter w cs)"
  let ?rest = "filter (\<lambda>c. \<not> w c) cs"
  have "delete_comment_rows w cs = filter (\<lambda>c. c \<in> set (delete_comment_rows w cs)) ?rest"
    unfolding delete_comment_rows_def by (rule cascade_replies_filter)
  also have "\<dots> = filter (\<lambda>c. \<not> doomed w cs c) cs"
    using doomed_removed [of w cs] removed_doomed [of _ cs w]
      delete_comment_rows_not_matched [of _ w cs]
    by (auto intro!: filter_cong)
  finally show ?thesis .
qed

subsection \<open>Lemmas on \<^verbatim>\<open>parseInt\<close> and on the page arithmetic\<close>














lemma list_params_eq:
  "list_params dflt qpage qlimit =
     (query_int qpage 1, query_int qlimit dflt, (query_int qpage 1 - 1) * query_int qlimit dflt)"
  by (simp add: list_params_def Let_def)

lemma get_post_comments_negative_limit:
  "query_int qlimit 20 < 0 \<Longrightarrow> get_post_comments postId qpage qlimit d = server_error"
  by (simp add: get_post_comments_def list_params_eq sql_limit_def)




subsection \<open>Lemmas on the delete statements\<close>

lemma delete_comments_where_other [simp]:
  "users (delete_comments_where w d) = users d"
  "posts (delete_comments_where w d) = posts d"
  "likes (delete_comments_where w d) = likes d"
  "comments (delete_comments_where w d) = delete_comment_rows w (comments d)"
  by (simp_all add: delete_comments_where_def)

lemma delete_comment_rows_none_left:
  "\<not> list_ex (\<lambda>c. w c) (delete_comment_rows w cs)"
  using delete_comment_rows_not_matched [of _ w cs] by (auto simp: list_ex_iff)

lemma survivors_keep_parents:
  assumes "c \<in> set (delete_comment_rows w cs)" and "c_parent_id c = Some q"
    and "list_ex (\<lambda>p. c_id p = q) cs"
  shows "list_ex (\<lambda>p. c_id p = q) (delete_comment_rows w cs)"
proof -
  from assms(3) obtain p where p: "p \<in> set cs" "c_id p = q"
    by (auto simp: list_ex_iff)
  from assms(1) have "p \<in> set (delete_comment_rows w cs)"
  proof (rule delete_comment_rows_closed)
    show "c_parent_id c = Some (c_id p)" using assms(2) p(2) by simp
    show "p \<in> set cs" by (rule p(1))
  qed
  with p(2) show ?thesis by (auto simp: list_ex_iff)
qed

subsection \<open>Lemmas on \<^verbatim>\<open>POST /comments\<close>\<close>







subsection \<open>Lemmas on the like toggle\<close>

lemma add_likes_fields [simp]:
  "users (add_likes k i d) = users d"
  "comments (add_likes k i d) = comments d"
  "likes (add_likes k i d) = likes d"
  "posts (add_likes k i d) =
     map (\<lambda>p. if p_id p = i then p\<lparr>p_likes := p_likes p + k\<rparr> else p) (posts d)"
  "has_like (add_likes k i d) u p = has_like d u p"
  "has_user (add_likes k i d) u = has_user d u"
  by (simp_all add: add_likes_def has_like_def has_user_def)

lemma list_ex_p_id_map:
  "list_ex (\<lambda>p. p_id p = j) (map (\<lambda>p. if p_id p = i then p\<lparr>p_likes := p_likes p + k\<rparr> else p) ps)
     = list_ex (\<lambda>p. p_id p = j) ps"
  by (induction ps) auto

lemma has_post_add_likes [simp]: "has_post (add_likes k i d) j = has_post d j"
  by (simp add: add_likes_def has_post_def list_ex_p_id_map)

lemma like_post_unlike:
  assumes "has_like d (au_id user) postId"
  shows "like_post user now postId d =
     ((200, Liked ''Post unliked'' False),
      add_likes (- 1) postId
        (d\<lparr>likes := filter (\<lambda>l. \<not> (l_user_id l = au_id user \<and> l_post_id l = postId))
                       (likes d)\<rparr>))"
  using assms by (simp add: like_post_def)

lemma like_post_like:
  assumes "\<not> has_like d (au_id user) postId" and "has_user d (au_id user)" and "has_post d postId"
  shows "like_post user now postId d =
     ((200, Liked ''Post liked'' True),
      add_likes 1 postId
        (d\<lparr>likes := likes d @ [\<lparr>l_id = next_like_id d, l_user_id = au_id user,
                                  l_post_id = postId, l_created_at = now\<rparr>],
           next_like_id := next_like_id d + 1\<rparr>))"
  using assms by (simp add: like_post_def insert_like_def)

lemma likes_round_trip:
  "j + k = 0 \<Longrightarrow>
   map ((\<lambda>p. if p_id p = i then p\<lparr>p_likes := p_likes p + k\<rparr> else p) \<circ>
        (\<lambda>p. if p_id p = i then p\<lparr>p_likes := p_likes p + j\<rparr> else p)) ps = ps"
  by (induction ps) (auto simp: add.assoc)

lemma like_twice:
  assumes user: "has_user d (au_id user)" and post: "has_post d postId"
  shows "posts (snd (like_post user now' postId (snd (like_post user now postId d)))) = posts d"
    and "has_like (snd (like_post user now' postId (snd (like_post user now postId d)))) u p
           = has_like d u p"
    and "fst (like_post user now' postId (snd (like_post user now postId d))) =
           (200, Liked (if has_like d (au_id user) postId then ''Post liked'' else ''Post unliked'')
                   (has_like d (au_id user) postId))"
proof -
  let ?d1 = "snd (like_post user now postId d)"
  let ?d2 = "snd (like_post user now' postId ?d1)"
  have "posts ?d2 = posts d \<and> has_like ?d2 u p = has_like d u p \<and>
    fst (like_post user now' postId ?d1) =
           (200, Liked (if has_like d (au_id user) postId then ''Post liked'' else ''Post unliked'')
                   (has_like d (au_id user) postId))"
  proof (cases "has_like d (au_id user) postId")
    case True
    let ?e = "d\<lparr>likes := filter (\<lambda>l. \<not> (l_user_id l = au_id user \<and> l_post_id l = postId))
                       (likes d)\<rparr>"
    have d1: "?d1 = add_likes (- 1) postId ?e"
      using True by (simp add: like_post_unlike)
    have nl: "\<not> has_like ?d1 (au_id user) postId"
      by (simp add: d1) (simp add: has_like_def list_ex_iff)
    have u1: "has_user ?d1 (au_id user)" using user by (simp add: d1) (simp add: has_user_def)
    have p1: "has_post ?d1 postId" using post by (simp add: d1) (simp add: has_post_def)
    note step2 = like_post_like [OF nl u1 p1, of now']
    have "posts ?d2 = posts d"
      unfolding step2 by (simp add: d1 likes_round_trip)
    moreover have "has_like ?d2 u p = has_like d u p"
      unfolding step2 using True
      by (simp add: d1) (auto simp: has_like_def list_ex_iff)
    moreover have "fst (like_post user now' postId ?d1) =
           (200, Liked (if has_like d (au_id user) postId then ''Post liked'' else ''Post unliked'')
                   (has_like d (au_id user) postId))"
      unfolding step2 using True by simp
    ultimately show ?thesis by (intro conjI)
  next
    case False
    let ?e = "d\<lparr>likes := likes d @ [\<lparr>l_id = next_like_id d, l_user_id = au_id user,
                                  l_post_id = postId, l_created_at = now\<rparr>],
           next_like_id := next_like_id d + 1\<rparr>"
    have d1: "?d1 = add_likes 1 postId ?e"
      using False user post by (simp add: like_post_like)
    have hl: "has_like ?d1 (au_id user) postId"
      by (simp add: d1) (simp add: has_like_def)
    note step2 = like_post_unlike [OF hl, of now']
    have "posts ?d2 = posts d"
      unfolding step2 by (simp add: d1 likes_round_trip)
    moreover have "has_like ?d2 u p = has_like d u p"
      unfolding step2 using False
      by (simp add: d1) (auto simp: has_like_def list_ex_iff)
    moreover have "fst (like_post user now' postId ?d1) =
           (200, Liked (if has_like d (au_id user) postId then ''Post liked'' else ''Post unliked'')
                   (has_like d (au_id user) postId))"
      unfolding step2 using False by simp
    ultimately show ?thesis by (intro conjI)
  qed
  then show "posts ?d2 = posts d" and "has_like ?d2 u p = has_like d u p"
    and "fst (like_post user now' postId ?d1) =
           (200, Liked (if has_like d (au_id user) postId then ''Post liked'' else ''Post unliked'')
                   (has_like d (au_id user) postId))"
    by blast+
qed

subsection \<open>Lemmas on the view counter\<close>

lemma increment_views_fields [simp]:
  "users (increment_views i d) = users d"
  "comments (increment_views i d) = comments d"
  "likes (increment_views i d) = likes d"
  "posts (increment_views i d) =
     map (\<lambda>p. if p_id p = i then p\<lparr>p_views := p_views p + 1\<rparr> else p) (posts d)"
  by (simp_all add: increment_views_def)

lemma get_post_store: "snd (get_post postId d) = increment_views postId d"
  by (simp add: get_post_def Let_def split: list.splits)

lemma select_published_post_sound:
  "v \<in> set (select_published_post postId d) \<Longrightarrow>
     p_id (pv_post v) = postId \<and> p_status (pv_post v) = Published"
  by (auto simp: select_published_post_def)

lemma get_post_response:
  "fst (get_post postId d) = (404, Message ''Post not found'')
   \<or> (\<exists>v. fst (get_post postId d) = (200, PostFound v) \<and> p_id (pv_post v) = postId
          \<and> p_status (pv_post v) = Published)"
proof (cases "select_published_post postId (increment_views postId d)")
  case Nil
  then show ?thesis by (simp add: get_post_def)
next
  case (Cons v rest)
  then have "v \<in> set (select_published_post postId (increment_views postId d))" by simp
  from select_published_post_sound [OF this] Cons show ?thesis
    by (simp add: get_post_def)
qed

lemma map_views_zero:
  "map (\<lambda>p. if p_id p = i then p\<lparr>p_views := p_views p + 0\<rparr> else p) ps = ps"
  by (induction ps) auto

lemma map_views_add:
  "map (\<lambda>p. if p_id p = i then p\<lparr>p_views := p_views p + k\<rparr> else p)
     (map (\<lambda>p. if p_id p = i then p\<lparr>p_views := p_views p + 1\<rparr> else p) ps) =
   map (\<lambda>p. if p_id p = i then p\<lparr>p_views := p_views p + (1 + k)\<rparr> else p) ps"
  by (induction ps) (auto simp: add.assoc)

lemma run_get_post:
  "posts (run (replicate n (GetPost postId)) d) =
     map (\<lambda>p. if p_id p = postId then p\<lparr>p_views := p_views p + int n\<rparr> else p) (posts d)"
proof (induction n arbitrary: d)
  case 0
  show ?case using map_views_zero [of postId "posts d"] by (simp cong: if_cong)
next
  case (Suc n)
  have "posts (run (replicate (Suc n) (GetPost postId)) d) =
      posts (run (replicate n (GetPost postId)) (increment_views postId d))"
    by (simp add: get_post_store)
  also have "\<dots> = map (\<lambda>p. if p_id p = postId then p\<lparr>p_views := p_views p + int n\<rparr> else p)
                     (posts (increment_views postId d))"
    by (rule Suc.IH)
  also have "\<dots> = map (\<lambda>p. if p_id p = postId then p\<lparr>p_views := p_views p + int (Suc n)\<rparr> else p)
                     (posts d)"
    using map_views_add [of postId "int n" "posts d"] by (simp del: map_map cong: if_cong)
  finally show ?case .
qed

subsection \<open>Lemmas on the nesting of comments\<close>

lemma same_post_parent_iff:
  "same_post_parent cs c \<longleftrightarrow>
     (\<forall>q. c_parent_id c = Some q \<longrightarrow> (\<exists>p\<in>set cs. c_id p = q \<and> c_post_id p = c_post_id c))"
  by (auto simp: same_post_parent_def list_ex_iff split: option.splits)

lemma nesting_delete_comment_rows:
  assumes "list_all (same_post_parent cs) cs"
  shows "list_all (same_post_parent (delete_comment_rows w cs)) (delete_comment_rows w cs)"
  unfolding list_all_iff same_post_parent_iff
proof (intro ballI allI impI)
  fix c q
  assume c: "c \<in> set (delete_comment_rows w cs)" and q: "c_parent_id c = Some q"
  from c have "c \<in> set cs" using delete_comment_rows_subset by blast
  with assms q obtain p where p: "p \<in> set cs" "c_id p = q" "c_post_id p = c_post_id c"
    by (auto simp: list_all_iff same_post_parent_iff)
  from c have "p \<in> set (delete_comment_rows w cs)"
  proof (rule delete_comment_rows_closed)
    show "c_parent_id c = Some (c_id p)" using q p(2) by simp
    show "p \<in> set cs" by (rule p(1))
  qed
  with p(2,3) show "\<exists>p\<in>set (delete_comment_rows w cs). c_id p = q \<and> c_post_id p = c_post_id c"
    by blast
qed

lemma nesting_update_content:
  assumes "list_all (same_post_parent cs) cs"
  shows "list_all (same_post_parent (map (\<lambda>c. if c_id c = i then c\<lparr>c_content := x\<rparr> else c) cs))
           (map (\<lambda>c. if c_id c = i then c\<lparr>c_content := x\<rparr> else c) cs)"
  unfolding list_all_iff same_post_parent_iff
proof (intro ballI allI impI)
  let ?f = "\<lambda>c. if c_id c = i then c\<lparr>c_content := x\<rparr> else c"
  fix c' q
  assume "c' \<in> set (map ?f cs)" and q: "c_parent_id c' = Some q"
  then obtain c where c: "c \<in> set cs" "c' = ?f c" by auto
  then have "c_parent_id c = Some q" using q by (simp split: if_splits)
  with assms c(1) obtain p where p: "p \<in> set cs" "c_id p = q" "c_post_id p = c_post_id c"
    by (auto simp: list_all_iff same_post_parent_iff)
  have "?f p \<in> set (map ?f cs)" using p(1) by simp
  moreover have "c_id (?f p) = q" "c_post_id (?f p) = c_post_id c'"
    using p(2,3) c(2) by simp_all
  ultimately show "\<exists>p\<in>set (map ?f cs). c_id p = q \<and> c_post_id p = c_post_id c'"
    by blast
qed

lemma nesting_append:
  assumes "list_all (same_post_parent cs) cs" and "same_post_parent cs c"
  shows "list_all (same_post_parent (cs @ [c])) (cs @ [c])"
  using assms by (auto simp: list_all_iff same_post_parent_iff)

lemma nesting_add_comment:
  assumes "no_cross_post_nesting d"
  shows "no_cross_post_nesting (snd (add_comment user now content post_id parent_id d))"
proof (cases "fst (fst (add_comment user now content post_id parent_id d)) = 201")
  case False
  then have "snd (add_comment user now content post_id parent_id d) = d"
    by (auto simp: add_comment_def Let_def split: if_splits sum.splits)
  with assms show ?thesis by simp
next
  case True
  let ?parent = "if truthy parent_id then Some (field_int parent_id) else None"
  let ?new = "\<lparr>c_id = next_comment_id d, c_content = content, c_post_id = field_int post_id,
               c_user_id = au_id user, c_parent_id = ?parent, c_created_at = now\<rparr>"
  from True have par: "truthy parent_id \<longrightarrow>
      list_ex (\<lambda>c. c_id c = field_int parent_id \<and> c_post_id c = field_int post_id) (comments d)"
    by (auto simp: add_comment_def Let_def server_error_def split: if_splits sum.splits)
  from True have "comments (snd (add_comment user now content post_id parent_id d)) =
      comments d @ [?new]"
    by (auto simp: add_comment_def Let_def server_error_def insert_comment_def
          split: if_splits sum.splits)
  moreover have "same_post_parent (comments d) ?new"
    using par by (simp add: same_post_parent_def)
  ultimately show ?thesis
    using assms nesting_append [of "comments d" ?new] by (simp add: no_cross_post_nesting_def)
qed

lemma nesting_step:
  assumes "no_cross_post_nesting d"
  shows "no_cross_post_nesting (snd (step r d))"
proof (cases r)
  case (AddComment user now content post_id parent_id)
  with assms show ?thesis by (simp add: nesting_add_comment)
next
  case (UpdateComment user commentId content)
  with assms show ?thesis
    by (simp add: update_comment_def no_cross_post_nesting_def nesting_update_content)
next
  case (DeleteComment user commentId)
  with assms show ?thesis
    by (simp add: delete_comment_def no_cross_post_nesting_def nesting_delete_comment_rows)
next
  case (AdminDeleteComment commentId)
  with assms show ?thesis
    by (simp add: admin_delete_comment_def no_cross_post_nesting_def nesting_delete_comment_rows)
next
  case (AdminDeleteUser user userId)
  with assms show ?thesis
    by (simp add: admin_delete_user_def delete_users_where_def Let_def no_cross_post_nesting_def
          nesting_delete_comment_rows)
next
  case (AdminDeletePost postId)
  with assms show ?thesis
    by (simp add: admin_delete_post_def delete_posts_where_def Let_def no_cross_post_nesting_def
          nesting_delete_comment_rows)
next
  case (DeletePost user postId)
  with assms show ?thesis
    by (simp add: delete_post_def delete_posts_where_def Let_def no_cross_post_nesting_def
          nesting_delete_comment_rows)
next
  case (GetPostComments postId qpage qlimit)
  with assms show ?thesis by simp
next
  case (GetReplies commentId)
  with assms show ?thesis by simp
next
  case (AdminUpdateRole user userId r)
  with assms show ?thesis
    by (simp add: admin_update_role_def no_cross_post_nesting_def split: option.splits)
next
  case (AdminUpdatePostStatus postId st)
  with assms show ?thesis
    by (simp add: admin_update_post_status_def no_cross_post_nesting_def split: option.splits)
next
  case (GetPost postId)
  with assms show ?thesis
    by (simp add: get_post_store no_cross_post_nesting_def)
next
  case (CreatePost user now title content excerpt img st)
  with assms show ?thesis
    by (simp add: create_post_def no_cross_post_nesting_def split: option.splits)
next
  case (UpdatePost user postId title content excerpt img st)
  with assms show ?thesis
    by (simp add: update_post_def no_cross_post_nesting_def split: option.splits list.splits)
next
  case (LikePost user now postId)
  with assms show ?thesis
    by (simp add: like_post_def insert_like_def no_cross_post_nesting_def split: sum.splits)
next
  case (UpdateProfile user full_name bio img)
  with assms show ?thesis
    by (simp add: update_profile_def no_cross_post_nesting_def)
next
  case (AuthUpdateProfile user full_name bio)
  with assms show ?thesis
    by (simp add: auth_update_profile_def no_cross_post_nesting_def)
next
  case (Register now username email email_ok password hashed full_name)
  with assms show ?thesis
    by (auto simp: register_def insert_user_def no_cross_post_nesting_def split: sum.splits)
next
  case (CreateAdmin now hashed)
  with assms show ?thesis
    by (auto simp: create_admin_def insert_user_def no_cross_post_nesting_def split: sum.splits)
qed

lemma nesting_run:
  "no_cross_post_nesting d \<Longrightarrow> no_cross_post_nesting (run rs d)"
  by (induction rs arbitrary: d) (simp_all add: nesting_step)

section \<open>The claims\<close>

text \<open>
  C1.  An authorized delete (a comment with the id exists and the requester is its author
  or has the role admin) answers 200 and removes, by one delete statement, the comment and
  every comment whose \<^verbatim>\<open>parent_id\<close> is its id: afterwards no comment has that id or
  names it as parent, nothing was added, and the other tables are as before.  Any other
  request answers 404 and leaves the store as it was.  So no outcome has the comment
  removed and a direct reply left.
\<close>

theorem delete_comment_cascade_complete:
  "(list_ex (\<lambda>c. c_id c = commentId \<and> (c_user_id c = au_id user \<or> au_role user = RoleAdmin))
      (comments d) \<longrightarrow>
      fst (delete_comment user commentId d) = (200, Message ''Comment deleted successfully'')
      \<and> \<not> list_ex (\<lambda>c. c_id c = commentId \<or> c_parent_id c = Some commentId)
            (comments (snd (delete_comment user commentId d)))
      \<and> set (comments (snd (delete_comment user commentId d))) \<subseteq> set (comments d)
      \<and> users (snd (delete_comment user commentId d)) = users d
      \<and> posts (snd (delete_comment user commentId d)) = posts d
      \<and> likes (snd (delete_comment user commentId d)) = likes d)
   \<and> (\<not> list_ex (\<lambda>c. c_id c = commentId \<and> (c_user_id c = au_id user \<or> au_role user = RoleAdmin))
          (comments d) \<longrightarrow>
      delete_comment user commentId d =
        ((404, Message ''Comment not found or access denied''), d))"
  using delete_comment_rows_none_left
    [of "\<lambda>c. c_id c = commentId \<or> c_parent_id c = Some commentId" "comments d"]
    delete_comment_rows_subset
    [of "\<lambda>c. c_id c = commentId \<or> c_parent_id c = Some commentId" "comments d"]
  by (simp add: delete_comment_def)

theorem delete_comment_cascade_complete_witness:
  "list_ex (\<lambda>c. c_id c = 1 \<and> (c_user_id c = au_id alice_auth \<or> au_role alice_auth = RoleAdmin))
     (comments blog_db)
   \<and> fst (delete_comment alice_auth 1 blog_db) = (200, Message ''Comment deleted successfully'')
   \<and> \<not> list_ex (\<lambda>c. c_id c = 1 \<or> c_parent_id c = Some 1)
         (comments (snd (delete_comment alice_auth 1 blog_db)))
   \<and> \<not> list_ex (\<lambda>c. c_id c = 1 \<and> (c_user_id c = au_id bob_auth \<or> au_role bob_auth = RoleAdmin))
         (comments blog_db)
   \<and> delete_comment bob_auth 1 blog_db =
        ((404, Message ''Comment not found or access denied''), blog_db)"
proof -
  have a: "list_ex (\<lambda>c. c_id c = 1 \<and> (c_user_id c = au_id alice_auth \<or> au_role alice_auth = RoleAdmin))
     (comments blog_db)"
    by (simp add: sample_defs)
  have b: "\<not> list_ex (\<lambda>c. c_id c = 1 \<and> (c_user_id c = au_id bob_auth \<or> au_role bob_auth = RoleAdmin))
         (comments blog_db)"
    by (simp add: sample_defs)
  from a delete_comment_cascade_complete [of 1 alice_auth blog_db]
  have "fst (delete_comment alice_auth 1 blog_db) = (200, Message ''Comment deleted successfully'')"
    and "\<not> list_ex (\<lambda>c. c_id c = 1 \<or> c_parent_id c = Some 1)
         (comments (snd (delete_comment alice_auth 1 blog_db)))"
    by blast+
  moreover from b delete_comment_cascade_complete [of 1 bob_auth blog_db]
  have "delete_comment bob_auth 1 blog_db =
        ((404, Message ''Comment not found or access denied''), blog_db)"
    by blast
  ultimately show ?thesis using a b by blast
qed

text \<open>
  C2, as amended.  A request to update a comment by someone who is not its author, an
  admin included, never answers 200 and leaves the store as it was: it answers 404, or
  400 when the new content is empty, since the validator runs before the ownership query.
  The answer is 200 exactly when the requester is the author and the content is not empty,
  and then only the content of that comment changes.  The requester's role is not looked
  at.
\<close>

theorem update_comment_author_only:
  "(\<not> list_ex (\<lambda>c. c_id c = commentId \<and> c_user_id c = au_id user) (comments d) \<longrightarrow>
      snd (update_comment user commentId content d) = d
      \<and> fst (fst (update_comment user commentId content d)) = (if content = [] then 400 else 404))
   \<and> (fst (fst (update_comment user commentId content d)) = 200 \<longleftrightarrow>
        content \<noteq> [] \<and> list_ex (\<lambda>c. c_id c = commentId \<and> c_user_id c = au_id user) (comments d))
   \<and> (fst (fst (update_comment user commentId content d)) = 200 \<longrightarrow>
        snd (update_comment user commentId content d) =
          d\<lparr>comments := map (\<lambda>c. if c_id c = commentId then c\<lparr>c_content := content\<rparr> else c)
                           (comments d)\<rparr>)
   \<and> (fst (fst (update_comment user commentId content d)) \<noteq> 200 \<longrightarrow>
        snd (update_comment user commentId content d) = d)
   \<and> update_comment (user\<lparr>au_role := r\<rparr>) commentId content d =
       update_comment user commentId content d"
  by (simp add: update_comment_def)

theorem update_comment_author_only_witness:
  "\<not> list_ex (\<lambda>c. c_id c = 1 \<and> c_user_id c = au_id admin_auth) (comments blog_db)
   \<and> update_comment admin_auth 1 ''edited'' blog_db =
       ((404, Message ''Comment not found or access denied''), blog_db)
   \<and> list_ex (\<lambda>c. c_id c = 1 \<and> c_user_id c = au_id alice_auth) (comments blog_db)
   \<and> fst (update_comment alice_auth 1 ''edited'' blog_db) =
       (200, Message ''Comment updated successfully'')
   \<and> comments (snd (update_comment alice_auth 1 ''edited'' blog_db)) =
       [top_comment\<lparr>c_content := ''edited''\<rparr>, reply_comment, nested_reply]"
proof -
  have a: "\<not> list_ex (\<lambda>c. c_id c = 1 \<and> c_user_id c = au_id admin_auth) (comments blog_db)"
    by (simp add: sample_defs)
  have b: "list_ex (\<lambda>c. c_id c = 1 \<and> c_user_id c = au_id alice_auth) (comments blog_db)"
    by (simp add: sample_defs)
  note t1 = update_comment_author_only [of 1 admin_auth blog_db "''edited''" RoleUser]
  note t2 = update_comment_author_only [of 1 alice_auth blog_db "''edited''" RoleUser]
  have "update_comment admin_auth 1 ''edited'' blog_db =
       ((404, Message ''Comment not found or access denied''), blog_db)"
    using t1 a by (simp add: update_comment_def)
  moreover have s: "fst (fst (update_comment alice_auth 1 ''edited'' blog_db)) = 200"
    using t2 b by simp
  moreover have "fst (update_comment alice_auth 1 ''edited'' blog_db) =
       (200, Message ''Comment updated successfully'')"
    using s by (simp add: update_comment_def split: if_splits)
  moreover have "comments (snd (update_comment alice_auth 1 ''edited'' blog_db)) =
       [top_comment\<lparr>c_content := ''edited''\<rparr>, reply_comment, nested_reply]"
    using t2 s by (simp add: sample_defs)
  ultimately show ?thesis using a b by (intro conjI)
qed

text \<open>
  C2 as stated fails for an empty content: bob is not the author of comment 1, and the
  answer is 400, not 404.
\<close>

theorem update_comment_empty_content_is_400:
  "\<not> list_ex (\<lambda>c. c_id c = 1 \<and> c_user_id c = au_id bob_auth) (comments blog_db)
   \<and> update_comment bob_auth 1 [] blog_db = ((400, Errors [''Comment content is required'']), blog_db)
   \<and> fst (fst (update_comment bob_auth 1 [] blog_db)) \<noteq> 404"
  by (simp add: update_comment_def sample_defs)






text \<open>
  C5.  For an authenticated user of the store and a post of the store: if the user likes
  the post, the toggle deletes the like, takes one from the post's \<^verbatim>\<open>likes\<close> counter and
  reports \<^verbatim>\<open>liked: false\<close>; otherwise it inserts the like, adds one to the counter and
  reports \<^verbatim>\<open>liked: true\<close>.  After two toggles in sequence the posts table, and so the
  counter, is what it was, and so is who likes what.
\<close>

theorem like_post_toggles:
  assumes "has_user d (au_id user)" and "has_post d postId"
  shows "(has_like d (au_id user) postId \<longrightarrow>
            fst (like_post user now postId d) = (200, Liked ''Post unliked'' False)
            \<and> \<not> has_like (snd (like_post user now postId d)) (au_id user) postId
            \<and> posts (snd (like_post user now postId d)) =
                map (\<lambda>p. if p_id p = postId then p\<lparr>p_likes := p_likes p - 1\<rparr> else p) (posts d))
       \<and> (\<not> has_like d (au_id user) postId \<longrightarrow>
            fst (like_post user now postId d) = (200, Liked ''Post liked'' True)
            \<and> has_like (snd (like_post user now postId d)) (au_id user) postId
            \<and> likes (snd (like_post user now postId d)) =
                likes d @ [\<lparr>l_id = next_like_id d, l_user_id = au_id user, l_post_id = postId,
                            l_created_at = now\<rparr>]
            \<and> posts (snd (like_post user now postId d)) =
                map (\<lambda>p. if p_id p = postId then p\<lparr>p_likes := p_likes p + 1\<rparr> else p) (posts d))
       \<and> posts (snd (like_post user now' postId (snd (like_post user now postId d)))) = posts d
       \<and> (\<forall>u p. has_like (snd (like_post user now' postId (snd (like_post user now postId d)))) u p
                 = has_like d u p)"
proof -
  have a: "has_like d (au_id user) postId \<longrightarrow>
            fst (like_post user now postId d) = (200, Liked ''Post unliked'' False)
            \<and> \<not> has_like (snd (like_post user now postId d)) (au_id user) postId
            \<and> posts (snd (like_post user now postId d)) =
                map (\<lambda>p. if p_id p = postId then p\<lparr>p_likes := p_likes p - 1\<rparr> else p) (posts d)"
    by (simp add: like_post_unlike) (simp add: has_like_def list_ex_iff)
  have b: "\<not> has_like d (au_id user) postId \<longrightarrow>
            fst (like_post user now postId d) = (200, Liked ''Post liked'' True)
            \<and> has_like (snd (like_post user now postId d)) (au_id user) postId
            \<and> likes (snd (like_post user now postId d)) =
                likes d @ [\<lparr>l_id = next_like_id d, l_user_id = au_id user, l_post_id = postId,
                            l_created_at = now\<rparr>]
            \<and> posts (snd (like_post user now postId d)) =
                map (\<lambda>p. if p_id p = postId then p\<lparr>p_likes := p_likes p + 1\<rparr> else p) (posts d)"
    using assms by (simp add: like_post_like) (simp add: has_like_def)
  note two = like_twice [OF assms, of now' now]
  from a b two(1) two(2) show ?thesis by (intro conjI allI)
qed

theorem like_post_toggles_witness:
  "has_user blog_db (au_id bob_auth) \<and> has_post blog_db 1 \<and> has_like blog_db (au_id bob_auth) 1
   \<and> fst (like_post bob_auth 140 1 blog_db) = (200, Liked ''Post unliked'' False)
   \<and> map p_likes (posts (snd (like_post bob_auth 140 1 blog_db))) = [0, 0]
   \<and> posts (snd (like_post bob_auth 141 1 (snd (like_post bob_auth 140 1 blog_db)))) = posts blog_db
   \<and> has_like (snd (like_post bob_auth 141 1 (snd (like_post bob_auth 140 1 blog_db)))) 2 1
   \<and> has_user blog_db (au_id alice_auth) \<and> \<not> has_like blog_db (au_id alice_auth) 1
   \<and> fst (like_post alice_auth 140 1 blog_db) = (200, Liked ''Post liked'' True)
   \<and> map p_likes (posts (snd (like_post alice_auth 140 1 blog_db))) = [2, 0]"
proof -
  have u: "has_user blog_db (au_id bob_auth)" "has_user blog_db (au_id alice_auth)"
    by (simp_all add: has_user_def sample_defs)
  have p: "has_post blog_db 1" by (simp add: has_post_def sample_defs)
  have l: "has_like blog_db (au_id bob_auth) 1" "\<not> has_like blog_db (au_id alice_auth) 1"
    "has_like blog_db 2 1"
    by (simp_all add: has_like_def sample_defs)
  note b = like_post_toggles [OF u(1) p, of 140 141]
  note a = like_post_toggles [OF u(2) p, of 140 141]
  have b1: "fst (like_post bob_auth 140 1 blog_db) = (200, Liked ''Post unliked'' False)"
    using b l(1) by blast
  have b2: "map p_likes (posts (snd (like_post bob_auth 140 1 blog_db))) = [0, 0]"
  proof -
    from b l(1) have "posts (snd (like_post bob_auth 140 1 blog_db)) =
        map (\<lambda>p. if p_id p = 1 then p\<lparr>p_likes := p_likes p - 1\<rparr> else p) (posts blog_db)"
      by blast
    then show ?thesis by (simp add: sample_defs)
  qed
  have b3: "posts (snd (like_post bob_auth 141 1 (snd (like_post bob_auth 140 1 blog_db)))) =
      posts blog_db"
    using b by blast
  have b4: "has_like (snd (like_post bob_auth 141 1 (snd (like_post bob_auth 140 1 blog_db)))) 2 1"
    using b l(3) by blast
  have a1: "fst (like_post alice_auth 140 1 blog_db) = (200, Liked ''Post liked'' True)"
    using a l(2) by blast
  have a2: "map p_likes (posts (snd (like_post alice_auth 140 1 blog_db))) = [2, 0]"
  proof -
    from a l(2) have "posts (snd (like_post alice_auth 140 1 blog_db)) =
        map (\<lambda>p. if p_id p = 1 then p\<lparr>p_likes := p_likes p + 1\<rparr> else p) (posts blog_db)"
      by blast
    then show ?thesis by (simp add: sample_defs)
  qed
  from u p l(1,2) b1 b2 b3 b4 a1 a2 show ?thesis by (intro conjI)
qed

text \<open>
  C6.  In a store without cross-post nesting, every comment with a parent id has, in the
  store, a comment with that id and the same \<^verbatim>\<open>post_id\<close>.  Every operation of the
  routers keeps the store so: the creation of a comment checks the parent in the same
  post, the update changes the content only, the deletes take the replies of what they
  remove along, and the other operations leave the comments alone.  So it holds after any
  sequence of operations on the empty store.
\<close>

theorem no_cross_post_nesting_invariant:
  "(no_cross_post_nesting d \<longrightarrow> no_cross_post_nesting (snd (step r d)))
   \<and> no_cross_post_nesting (run rs empty_db)
   \<and> (no_cross_post_nesting d \<longleftrightarrow>
        (\<forall>c\<in>set (comments d). \<forall>q. c_parent_id c = Some q \<longrightarrow>
           (\<exists>p\<in>set (comments d). c_id p = q \<and> c_post_id p = c_post_id c)))"
proof -
  have "no_cross_post_nesting empty_db"
    by (simp add: no_cross_post_nesting_def empty_db_def)
  then have "no_cross_post_nesting (run rs empty_db)" by (rule nesting_run)
  moreover have "no_cross_post_nesting d \<longleftrightarrow>
        (\<forall>c\<in>set (comments d). \<forall>q. c_parent_id c = Some q \<longrightarrow>
           (\<exists>p\<in>set (comments d). c_id p = q \<and> c_post_id p = c_post_id c))"
    by (simp add: no_cross_post_nesting_def list_all_iff same_post_parent_iff)
  ultimately show ?thesis using nesting_step [of d r] by blast
qed

theorem no_cross_post_nesting_invariant_witness:
  "no_cross_post_nesting blog_db
   \<and> no_cross_post_nesting (snd (step (DeleteComment bob_auth 2) blog_db))
   \<and> no_cross_post_nesting (snd (step (AddComment bob_auth 130 ''me too'' (Num 1) (Str 3)) blog_db))
   \<and> (\<exists>p\<in>set (comments blog_db). c_id p = 2 \<and> c_post_id p = c_post_id nested_reply)"
proof -
  have a: "no_cross_post_nesting blog_db"
    by (simp add: no_cross_post_nesting_def same_post_parent_def sample_defs)
  have n: "nested_reply \<in> set (comments blog_db)" "c_parent_id nested_reply = Some 2"
    by (simp_all add: sample_defs)
  from a no_cross_post_nesting_invariant [of blog_db "DeleteComment bob_auth 2" "[]"]
  have b: "no_cross_post_nesting (snd (step (DeleteComment bob_auth 2) blog_db))" by blast
  from a no_cross_post_nesting_invariant
    [of blog_db "AddComment bob_auth 130 ''me too'' (Num 1) (Str 3)" "[]"]
  have c: "no_cross_post_nesting (snd (step (AddComment bob_auth 130 ''me too'' (Num 1) (Str 3)) blog_db))"
    by blast
  from a no_cross_post_nesting_invariant [of blog_db "GetPost 1" "[]"] n
  have d: "\<exists>p\<in>set (comments blog_db). c_id p = 2 \<and> c_post_id p = c_post_id nested_reply"
    by blast
  from a b c d show ?thesis by (intro conjI)
qed

text \<open>
  C7.  A fetch of a post by id adds exactly one to the \<^verbatim>\<open>views\<close> of the post with that
  id and changes nothing else in the store, whether the answer is the post or 404 (a
  draft is counted and not shown); \<open>n\<close> fetches in a row add \<open>n\<close>.  The handler takes
  no caller: the route has no authentication and reads nothing of the request but the id.
\<close>

theorem get_post_counts_every_fetch:
  "posts (snd (get_post postId d)) =
     map (\<lambda>p. if p_id p = postId then p\<lparr>p_views := p_views p + 1\<rparr> else p) (posts d)
   \<and> users (snd (get_post postId d)) = users d
   \<and> comments (snd (get_post postId d)) = comments d
   \<and> likes (snd (get_post postId d)) = likes d
   \<and> (fst (get_post postId d) = (404, Message ''Post not found'')
        \<or> (\<exists>v. fst (get_post postId d) = (200, PostFound v) \<and> p_id (pv_post v) = postId
               \<and> p_status (pv_post v) = Published))
   \<and> posts (run (replicate n (GetPost postId)) d) =
       map (\<lambda>p. if p_id p = postId then p\<lparr>p_views := p_views p + int n\<rparr> else p) (posts d)"
  using get_post_response [of postId d] run_get_post [of n postId d]
  by (simp add: get_post_store)

theorem get_post_counts_every_fetch_witness:
  "fst (get_post 2 blog_db) = (404, Message ''Post not found'')
   \<and> map p_views (posts blog_db) = [5, 0]
   \<and> map p_views (posts (snd (get_post 2 blog_db))) = [5, 1]
   \<and> fst (fst (get_post 1 blog_db)) = 200
   \<and> map p_views (posts (snd (get_post 1 blog_db))) = [6, 0]
   \<and> map p_views (posts (run (replicate 3 (GetPost 1)) blog_db)) = [8, 0]"
proof -
  note t2 = get_post_counts_every_fetch [of 2 blog_db 3]
  note t1 = get_post_counts_every_fetch [of 1 blog_db 3]
  have a: "fst (get_post 2 blog_db) = (404, Message ''Post not found'')"
    by (simp add: get_post_def select_published_post_def Let_def sample_defs increment_views_def)
  have b: "map p_views (posts blog_db) = [5, 0]" by (simp add: sample_defs)
  have c: "map p_views (posts (snd (get_post 2 blog_db))) = [5, 1]"
    using t2 by (simp add: sample_defs)
  have d: "fst (fst (get_post 1 blog_db)) = 200"
    by (simp add: get_post_def select_published_post_def Let_def sample_defs increment_views_def)
  have e: "map p_views (posts (snd (get_post 1 blog_db))) = [6, 0]"
    using t1 by (simp add: sample_defs)
  have f: "map p_views (posts (run (replicate 3 (GetPost 1)) blog_db)) = [8, 0]"
    using t1 by (simp add: sample_defs)
  from a b c d e f show ?thesis by (intro conjI)
qed




text \<open>
  C9, as amended.  The delete statement names the comment and the comments whose
  \<^verbatim>\<open>parent_id\<close> is its id, and the foreign key on \<^verbatim>\<open>parent_id\<close> with
  \<^verbatim>\<open>ON DELETE CASCADE\<close> carries the delete on: what is left are exactly the comments
  that are neither named nor descendants of a named one.  A reply to a deleted direct reply
  is deleted as well, and no comment that is left has lost the comment its \<^verbatim>\<open>parent_id\<close>
  names.  The admin endpoint removes the same comments.
\<close>

theorem delete_comment_removes_all_descendants:
  assumes "list_ex (\<lambda>c. c_id c = commentId \<and> (c_user_id c = au_id user \<or> au_role user = RoleAdmin))
             (comments d)"
  shows "comments (snd (delete_comment user commentId d)) =
           filter (\<lambda>c. \<not> doomed (\<lambda>c. c_id c = commentId \<or> c_parent_id c = Some commentId)
                          (comments d) c) (comments d)
       \<and> comments (snd (admin_delete_comment commentId d)) =
           comments (snd (delete_comment user commentId d))
       \<and> (\<forall>r\<in>set (comments d). \<forall>g\<in>set (comments d).
             c_parent_id r = Some commentId \<and> c_parent_id g = Some (c_id r) \<longrightarrow>
             g \<notin> set (comments (snd (delete_comment user commentId d))))
       \<and> (\<forall>c\<in>set (comments (snd (delete_comment user commentId d))). \<forall>q.
             c_parent_id c = Some q \<and> has_comment d q \<longrightarrow>
             has_comment (snd (delete_comment user commentId d)) q)"
proof -
  let ?w = "\<lambda>c. c_id c = commentId \<or> c_parent_id c = Some commentId"
  have after: "comments (snd (delete_comment user commentId d)) = delete_comment_rows ?w (comments d)"
    using assms by (simp add: delete_comment_def)
  have admin: "comments (snd (admin_delete_comment commentId d)) = delete_comment_rows ?w (comments d)"
    by (simp add: admin_delete_comment_def)
  have grand: "g \<notin> set (delete_comment_rows ?w (comments d))"
    if "r \<in> set (comments d)" "g \<in> set (comments d)" "c_parent_id r = Some commentId"
      "c_parent_id g = Some (c_id r)" for r g
  proof -
    from that(1,3) have r: "doomed ?w (comments d) r" by (auto intro: doomed.matched)
    from r that(2,4) have "doomed ?w (comments d) g" by (rule doomed.reply)
    then show ?thesis by (rule doomed_removed)
  qed
  have keep: "has_comment (snd (delete_comment user commentId d)) q"
    if "c \<in> set (delete_comment_rows ?w (comments d))" "c_parent_id c = Some q" "has_comment d q"
    for c q
    using that survivors_keep_parents [of c ?w "comments d" q]
    by (simp add: has_comment_def after)
  have one: "comments (snd (delete_comment user commentId d)) =
           filter (\<lambda>c. \<not> doomed ?w (comments d) c) (comments d)"
    unfolding after by (rule delete_comment_rows_eq)
  have two: "comments (snd (admin_delete_comment commentId d)) =
           comments (snd (delete_comment user commentId d))"
    by (simp only: after admin)
  have three: "\<forall>r\<in>set (comments d). \<forall>g\<in>set (comments d).
             c_parent_id r = Some commentId \<and> c_parent_id g = Some (c_id r) \<longrightarrow>
             g \<notin> set (comments (snd (delete_comment user commentId d)))"
  proof (intro ballI impI)
    fix r g
    assume "r \<in> set (comments d)" "g \<in> set (comments d)"
      "c_parent_id r = Some commentId \<and> c_parent_id g = Some (c_id r)"
    then show "g \<notin> set (comments (snd (delete_comment user commentId d)))"
      using grand [of r g] by (simp add: after)
  qed
  have four: "\<forall>c\<in>set (comments (snd (delete_comment user commentId d))). \<forall>q.
             c_parent_id c = Some q \<and> has_comment d q \<longrightarrow>
             has_comment (snd (delete_comment user commentId d)) q"
  proof (intro ballI allI impI)
    fix c q
    assume "c \<in> set (comments (snd (delete_comment user commentId d)))"
      "c_parent_id c = Some q \<and> has_comment d q"
    then show "has_comment (snd (delete_comment user commentId d)) q"
      using keep [of c q] by (simp add: after)
  qed
  from one two three four show ?thesis by (intro conjI)
qed

theorem delete_comment_removes_all_descendants_witness:
  "list_ex (\<lambda>c. c_id c = 1 \<and> (c_user_id c = au_id alice_auth \<or> au_role alice_auth = RoleAdmin))
     (comments blog_db)
   \<and> reply_comment \<in> set (comments blog_db) \<and> nested_reply \<in> set (comments blog_db)
   \<and> c_parent_id reply_comment = Some 1 \<and> c_parent_id nested_reply = Some (c_id reply_comment)
   \<and> nested_reply \<notin> set (comments (snd (delete_comment alice_auth 1 blog_db)))
   \<and> comments (snd (admin_delete_comment 1 blog_db)) =
       comments (snd (delete_comment alice_auth 1 blog_db))"
proof -
  have a: "list_ex (\<lambda>c. c_id c = 1 \<and> (c_user_id c = au_id alice_auth \<or> au_role alice_auth = RoleAdmin))
     (comments blog_db)"
    by (simp add: sample_defs)
  have b: "reply_comment \<in> set (comments blog_db)" "nested_reply \<in> set (comments blog_db)"
    "c_parent_id reply_comment = Some 1" "c_parent_id nested_reply = Some (c_id reply_comment)"
    by (simp_all add: sample_defs)
  note inst = delete_comment_removes_all_descendants [OF a]
  note kin = inst [THEN conjunct2, THEN conjunct2, THEN conjunct1, rule_format, OF b(1) b(2)]
  have g: "nested_reply \<notin> set (comments (snd (delete_comment alice_auth 1 blog_db)))"
    using kin b(3,4) by (intro kin conjI)
  have e: "comments (snd (admin_delete_comment 1 blog_db)) =
       comments (snd (delete_comment alice_auth 1 blog_db))"
    using inst [THEN conjunct2, THEN conjunct1] .
  from a b g e show ?thesis by (intro conjI)
qed

text \<open>
  C9 as stated fails: in the sample blog, comment 3 replies to comment 2, a direct reply of
  comment 1; deleting comment 1, by its author or through the admin endpoint, deletes
  comment 3.
\<close>

theorem reply_to_reply_is_deleted:
  "list_ex (\<lambda>c. c_id c = 3 \<and> c_parent_id c = Some 2) (comments blog_db)
   \<and> list_ex (\<lambda>c. c_id c = 2 \<and> c_parent_id c = Some 1) (comments blog_db)
   \<and> \<not> list_ex (\<lambda>c. c_id c = 3) (comments (snd (delete_comment alice_auth 1 blog_db)))
   \<and> \<not> list_ex (\<lambda>c. c_id c = 3) (comments (snd (admin_delete_comment 1 blog_db)))"
  by code_simp



end
